theory Spec2Isabelle
  imports Main "HOL-Library.Multiset" "HOL-Library.Product_Lexorder"
begin

section \<open>Strings as Python sees them\<close>

text \<open>
  Text is a list of characters; a character stands for a code point below 256. The
  helpers below are the Python string operations that \<^verbatim>\<open>mediatools.py\<close> calls.
\<close>

abbreviation LF :: char where "LF \<equiv> CHR 0x0A"
abbreviation CR :: char where "CR \<equiv> CHR 0x0D"

text \<open>\<^verbatim>\<open>sep.join(xs)\<close>\<close>

fun join :: "string \<Rightarrow> string list \<Rightarrow> string" where
  "join sep [] = []"
| "join sep [x] = x"
| "join sep (x # y # ys) = x @ sep @ join sep (y # ys)"

text \<open>\<^verbatim>\<open>s.startswith(p)\<close>\<close>

fun startswith :: "string \<Rightarrow> string \<Rightarrow> bool" where
  "startswith s [] = True"
| "startswith [] (p # ps) = False"
| "startswith (c # cs) (p # ps) = (c = p \<and> startswith cs ps)"

text \<open>\<^verbatim>\<open>s.replace(a, b)\<close> for single characters \<open>a\<close> and \<open>b\<close>.\<close>

definition replace_char :: "char \<Rightarrow> char \<Rightarrow> string \<Rightarrow> string" where
  "replace_char a b s = map (\<lambda>c. if c = a then b else c) s"

text \<open>The decimal text of a non-negative integer, as an f-string prints \<^verbatim>\<open>len(xs)\<close>.\<close>

definition digit_char :: "nat \<Rightarrow> char" where
  "digit_char d = ''0123456789'' ! d"

function str_nat :: "nat \<Rightarrow> string" where
  "str_nat n = (if n < 10 then [digit_char n] else str_nat (n div 10) @ [digit_char (n mod 10)])"
  by pat_completeness auto
termination
  by (relation "measure id") auto

declare str_nat.simps [simp del]

text \<open>
  The characters at which \<^verbatim>\<open>str.splitlines()\<close> ends a line, among the code points
  below 256: LF, VT, FF, CR, FS, GS, RS and NEL. CR followed by LF is one line end.
\<close>

definition is_linebreak :: "char \<Rightarrow> bool" where
  "is_linebreak c = (c \<in> set [CHR 0x0A, CHR 0x0B, CHR 0x0C, CHR 0x0D, CHR 0x1C, CHR 0x1D, CHR 0x1E, CHR 0x85])"

fun splitlines_from :: "string \<Rightarrow> string \<Rightarrow> string list" where
  "splitlines_from cur [] = (if cur = [] then [] else [cur])"
| "splitlines_from cur (c # cs) =
     (if c = CR then
        (case cs of
           [] \<Rightarrow> [cur]
         | d # ds \<Rightarrow> if d = LF then cur # splitlines_from [] ds
                    else cur # splitlines_from [] (d # ds))
      else if is_linebreak c then cur # splitlines_from [] cs
      else splitlines_from (cur @ [c]) cs)"

definition splitlines :: "string \<Rightarrow> string list" where
  "splitlines s = splitlines_from [] s"

section \<open>Presets and the ffmpeg argument vector\<close>

datatype ConcatStrategy = CONCAT_PROTOCOL | CONCAT_FILTER | CONCAT_DEMUX

record Preset =
  ffmpeg_params :: "string list"
  complex_filters :: "string list"
  description :: string
  concat_strategy :: ConcatStrategy

text \<open>
  The part of the outside world that \<^verbatim>\<open>build_ffmpeg_params\<close> touches: the contents of
  the files it writes, and the paths registered with \<^verbatim>\<open>atexit\<close> for removal.
\<close>

record world =
  files :: "string \<rightharpoonup> string"
  atexit_unlink :: "string list"

text \<open>One \<^verbatim>\<open>print(f"file 'file:{path}'", file=tf)\<close>: the text and the line feed after it.\<close>

definition manifest_line :: "string \<Rightarrow> string" where
  "manifest_line input_file =
     (let path = replace_char (CHR 0x5C) (CHR ''/'') input_file
      in ''file '' @ [CHR 0x27] @ ''file:'' @ path @ [CHR 0x27] @ [LF])"

text \<open>The loop over \<^verbatim>\<open>input_files\<close> that writes the manifest, on the text written so far.\<close>

fun write_manifest :: "string list \<Rightarrow> string \<Rightarrow> string" where
  "write_manifest [] tf = tf"
| "write_manifest (input_file # rest) tf = write_manifest rest (tf @ manifest_line input_file)"

text \<open>
  \<^verbatim>\<open>Preset.build_ffmpeg_params\<close>. \<open>tempfile_path\<close> is the path \<^verbatim>\<open>tempfile.mkstemp\<close>
  returns (used by the demuxer strategy only); \<^verbatim>\<open>mkstemp\<close> creates that file empty and
  the strategy then writes it through the descriptor. The result is the argument vector
  and the world after the call.
\<close>

definition filter_graph :: "Preset \<Rightarrow> string list \<Rightarrow> string" where
  "filter_graph self input_files =
     ''concat=n='' @ str_nat (length input_files) @ '':v=1:a=1[catv][outa];[catv]''
       @ join '','' (complex_filters self) @ ''[outv]''"

definition build_ffmpeg_params :: "Preset \<Rightarrow> string list \<Rightarrow> string \<Rightarrow> world \<Rightarrow> string list \<times> world" where
  "build_ffmpeg_params self input_files tempfile_path w =
     (let args = [];
          (args, w) =
            (case concat_strategy self of
               CONCAT_PROTOCOL \<Rightarrow>
                 (args @ [''-i'', ''concat:'' @ join ''|'' input_files], w)
             | CONCAT_FILTER \<Rightarrow>
                 (let args = args @ concat (map (\<lambda>f. [''-i'', f]) input_files);
                      args = args @ [''-filter_complex'', filter_graph self input_files];
                      args = args @ [''-map'', ''[outv]'', ''-map'', ''[outa]'']
                  in (args, w))
             | CONCAT_DEMUX \<Rightarrow>
                 (let w = w\<lparr>files := (files w)(tempfile_path \<mapsto> [])\<rparr>;
                      w = w\<lparr>atexit_unlink := atexit_unlink w @ [tempfile_path]\<rparr>;
                      w = w\<lparr>files := (files w)(tempfile_path \<mapsto> write_manifest input_files [])\<rparr>
                  in (args @ [''-f'', ''concat'', ''-safe'', ''0'', ''-i'', tempfile_path], w)))
      in (args @ ffmpeg_params self, w))"

text \<open>The catalog \<^verbatim>\<open>encode_presets\<close>.\<close>

definition preset_copy :: Preset where
  "preset_copy = \<lparr>ffmpeg_params = [''-c'', ''copy''], complex_filters = [],
     description = ''Directly copy input to output. Uses the FFMPEG concat demuxer to concatenate without re-encoding. Only suited for concatenating files with the exact same codecs and parameters (e.g. scenes from a camera).'',
     concat_strategy = CONCAT_DEMUX\<rparr>"

definition preset_copydv :: Preset where
  "preset_copydv = \<lparr>ffmpeg_params = [''-c'', ''copy''], complex_filters = [],
     description = ''Directly copy input to output. Only suited for MPEG-2 (includes DV) files with equal codec properties due to use of the concatenation protocol.'',
     concat_strategy = CONCAT_PROTOCOL\<rparr>"

definition preset_1080p :: Preset where
  "preset_1080p = \<lparr>ffmpeg_params = [''-c:v'', ''libx265'', ''-crf'', ''28'', ''-preset'', ''medium'', ''-c:a'', ''flac''],
     complex_filters = [''scale=-1:1080''],
     description = ''Transcode to 1080p using libx265 with a CRF of 28 and FLAC audio. Suited for any input format.'',
     concat_strategy = CONCAT_FILTER\<rparr>"

definition preset_4k :: Preset where
  "preset_4k = \<lparr>ffmpeg_params = [''-c:v'', ''libx265'', ''-crf'', ''28'', ''-preset'', ''medium'', ''-c:a'', ''flac''],
     complex_filters = [''scale=-1:2160''],
     description = ''Transcode to 4k UHD using libx265 with a CRF of 28 and FLAC audio. Suited for any input format.'',
     concat_strategy = CONCAT_FILTER\<rparr>"

definition encode_presets :: "(string \<times> Preset) list" where
  "encode_presets = [(''copy'', preset_copy), (''copydv'', preset_copydv),
                     (''1080p'', preset_1080p), (''4k'', preset_4k)]"

section \<open>Errors and log records\<close>

text \<open>The exceptions that can leave the functions modelled here.\<close>

datatype error = ValueError | IndexError | KeyError | OSError

datatype level = DEBUG | INFO | WARNING | ERROR

type_synonym log_record = "level \<times> string"

section \<open>Metadata extraction\<close>

text \<open>
  A naive \<^verbatim>\<open>datetime.datetime\<close>: year, month, day, hour, minute, second and
  microsecond. Python compares two of them field by field in this order, which is the
  lexicographic order of the tuple.
\<close>

type_synonym datetime = "nat \<times> nat \<times> nat \<times> nat \<times> nat \<times> nat \<times> nat"

text \<open>
  Modelled from the spec: the class \<^verbatim>\<open>FileMeta\<close> of the module \<^verbatim>\<open>meta\<close>, which is not
  among the source files. The spec gives it three optional fields, \<^verbatim>\<open>datetime\<close>,
  \<^verbatim>\<open>milliseconds\<close> and \<^verbatim>\<open>frames\<close>, each unset (\<^verbatim>\<open>None\<close>) until the report determines it.
\<close>

record FileMeta =
  datetime :: "datetime option"
  milliseconds :: "int option"
  frames :: "int option"

definition FileMeta_new :: FileMeta where
  "FileMeta_new = \<lparr>datetime = None, milliseconds = None, frames = None\<rparr>"

text \<open>
  Python's truth value, which \<^verbatim>\<open>not info.field\<close> negates: \<^verbatim>\<open>None\<close> is false, an
  integer is true unless it is zero, and a \<^verbatim>\<open>datetime\<close> object is always true.
\<close>

definition truthy_datetime :: "datetime option \<Rightarrow> bool" where
  "truthy_datetime d = (case d of None \<Rightarrow> False | Some _ \<Rightarrow> True)"

definition truthy_int :: "int option \<Rightarrow> bool" where
  "truthy_int v = (case v of None \<Rightarrow> False | Some n \<Rightarrow> n \<noteq> 0)"

text \<open>
  \<^verbatim>\<open>s.split(sep, 1)\<close> for a non-empty separator: the text before and after the first
  occurrence of \<open>sep\<close>, or the whole text alone when there is none.
\<close>

fun find_sep :: "string \<Rightarrow> string \<Rightarrow> (string \<times> string) option" where
  "find_sep sep [] = None"
| "find_sep sep (c # cs) =
     (if startswith (c # cs) sep then Some ([], drop (length sep) (c # cs))
      else (case find_sep sep cs of None \<Rightarrow> None | Some (b, a) \<Rightarrow> Some (c # b, a)))"

definition split1 :: "string \<Rightarrow> string \<Rightarrow> string list" where
  "split1 sep s = (case find_sep sep s of None \<Rightarrow> [s] | Some (b, a) \<Rightarrow> [b, a])"

text \<open>\<^verbatim>\<open>xs[1]\<close>, which raises \<^verbatim>\<open>IndexError\<close> on a list shorter than two.\<close>

definition index1 :: "'a list \<Rightarrow> error + 'a" where
  "index1 xs = (case xs of _ # y # _ \<Rightarrow> Inr y | _ \<Rightarrow> Inl IndexError)"

text \<open>\<^verbatim>\<open>line.split(": ", 1)[1]\<close>\<close>

definition field_value :: "string \<Rightarrow> error + string" where
  "field_value line = index1 (split1 '': '' line)"

text \<open>
  The two library parsers are parameters of the model: \<open>strptime text format\<close> is
  \<^verbatim>\<open>datetime.datetime.strptime\<close> and \<open>int_of text\<close> is \<^verbatim>\<open>int\<close>; each returns \<open>None\<close>
  where Python raises \<^verbatim>\<open>ValueError\<close>.
\<close>

type_synonym strptime_fn = "string \<Rightarrow> string \<Rightarrow> datetime option"
type_synonym int_fn = "string \<Rightarrow> int option"

text \<open>The four \<^verbatim>\<open>if\<close> statements of the loop body of \<^verbatim>\<open>get_meta\<close>, one definition each.\<close>

definition recorded_date_step :: "strptime_fn \<Rightarrow> string \<Rightarrow> FileMeta \<Rightarrow> error + FileMeta" where
  "recorded_date_step strptime line info =
     (if startswith line ''Recorded date'' \<and> \<not> truthy_datetime (datetime info) then
        (case field_value line of
           Inl e \<Rightarrow> Inl e
         | Inr v \<Rightarrow>
             (case strptime v ''%Y-%m-%d %H:%M:%S.000'' of
                None \<Rightarrow> Inl ValueError
              | Some d \<Rightarrow> Inr (info\<lparr>datetime := Some d\<rparr>)))
      else Inr info)"

definition tagged_date_step :: "strptime_fn \<Rightarrow> string \<Rightarrow> FileMeta \<Rightarrow> error + FileMeta" where
  "tagged_date_step strptime line info =
     (if startswith line ''Tagged date'' \<and> \<not> truthy_datetime (datetime info) then
        (case field_value line of
           Inl e \<Rightarrow> Inl e
         | Inr v \<Rightarrow>
             (case strptime v ''%Z %Y-%m-%d %H:%M:%S'' of
                None \<Rightarrow> Inl ValueError
              | Some d \<Rightarrow> Inr (info\<lparr>datetime := Some d\<rparr>)))
      else Inr info)"

text \<open>Only \<^verbatim>\<open>ValueError\<close> is caught here: a line without the separator still raises.\<close>

definition duration_step :: "int_fn \<Rightarrow> string \<Rightarrow> FileMeta \<Rightarrow> error + FileMeta" where
  "duration_step int_of line info =
     (if startswith line ''Duration'' \<and> \<not> truthy_int (milliseconds info) then
        (case field_value line of
           Inl e \<Rightarrow> Inl e
         | Inr v \<Rightarrow>
             (case int_of v of
                None \<Rightarrow> Inr info
              | Some n \<Rightarrow> Inr (info\<lparr>milliseconds := Some n\<rparr>)))
      else Inr info)"

definition frame_count_step :: "int_fn \<Rightarrow> string \<Rightarrow> FileMeta \<Rightarrow> error + FileMeta" where
  "frame_count_step int_of line info =
     (if startswith line ''Frame count'' \<and> \<not> truthy_int (frames info) then
        (case field_value line of
           Inl e \<Rightarrow> Inl e
         | Inr v \<Rightarrow>
             (case int_of v of
                None \<Rightarrow> Inl ValueError
              | Some n \<Rightarrow> Inr (info\<lparr>frames := Some n\<rparr>)))
      else Inr info)"

text \<open>Sequencing: an exception ends the run of statements.\<close>

definition and_then :: "error + 'a \<Rightarrow> ('a \<Rightarrow> error + 'b) \<Rightarrow> error + 'b" where
  "and_then r f = (case r of Inl e \<Rightarrow> Inl e | Inr x \<Rightarrow> f x)"

definition get_meta_line :: "strptime_fn \<Rightarrow> int_fn \<Rightarrow> string \<Rightarrow> FileMeta \<Rightarrow> error + FileMeta" where
  "get_meta_line strptime int_of line info =
     and_then (recorded_date_step strptime line info) (\<lambda>info.
     and_then (tagged_date_step strptime line info) (\<lambda>info.
     and_then (duration_step int_of line info) (\<lambda>info.
     frame_count_step int_of line info)))"

fun get_meta_lines :: "strptime_fn \<Rightarrow> int_fn \<Rightarrow> string list \<Rightarrow> FileMeta \<Rightarrow> error + FileMeta" where
  "get_meta_lines strptime int_of [] info = Inr info"
| "get_meta_lines strptime int_of (line # rest) info =
     and_then (get_meta_line strptime int_of line info) (get_meta_lines strptime int_of rest)"

text \<open>
  \<^verbatim>\<open>MediaTools.get_meta\<close>, from the decoded standard output of the \<^verbatim>\<open>mediainfo\<close> run
  on the file.
\<close>

definition get_meta :: "strptime_fn \<Rightarrow> int_fn \<Rightarrow> string \<Rightarrow> error + FileMeta" where
  "get_meta strptime int_of output = get_meta_lines strptime int_of (splitlines output) FileMeta_new"

subsection \<open>The library parsers on the inputs of the examples\<close>

definition is_digit :: "char \<Rightarrow> bool" where
  "is_digit c = (c \<in> set ''0123456789'')"

definition digit_val :: "char \<Rightarrow> nat" where
  "digit_val c = of_char c - 48"

text \<open>
  \<^verbatim>\<open>int(text)\<close> in base ten: white space around the literal is dropped, one sign may
  lead, and single underscores may stand between digits.
\<close>

definition int_isspace :: "char \<Rightarrow> bool" where
  "int_isspace c = (c \<in> set [CHR 0x09, CHR 0x0A, CHR 0x0B, CHR 0x0C, CHR 0x0D, CHR 0x20, CHR 0x85, CHR 0xA0])"

fun parse_digits :: "bool \<Rightarrow> nat \<Rightarrow> string \<Rightarrow> nat option" where
  "parse_digits after_digit acc [] = (if after_digit then Some acc else None)"
| "parse_digits after_digit acc (c # cs) =
     (if is_digit c then parse_digits True (acc * 10 + digit_val c) cs
      else if c = CHR ''_'' \<and> after_digit then parse_digits False acc cs
      else None)"

definition py_int :: int_fn where
  "py_int s =
     (let t = dropWhile int_isspace (rev (dropWhile int_isspace (rev s)))
      in case t of
           [] \<Rightarrow> None
         | c # cs \<Rightarrow>
             if c = CHR ''-'' then map_option (\<lambda>n. - int n) (parse_digits False 0 cs)
             else if c = CHR ''+'' then map_option int (parse_digits False 0 cs)
             else map_option int (parse_digits False 0 (c # cs)))"

text \<open>
  \<^verbatim>\<open>strptime\<close> on the two formats of \<^verbatim>\<open>get_meta\<close>, for text in the zero-padded form
  \<^verbatim>\<open>YYYY-MM-DD HH:MM:SS\<close> (after it \<^verbatim>\<open>.000\<close>, or before it \<^verbatim>\<open>UTC\<close> and a space). Python
  also takes fields of one digit and other zone names; this definition does not, and the
  theorems do not depend on it: they hold for every parser.
\<close>

definition two_digits :: "string \<Rightarrow> nat option" where
  "two_digits s = (case s of [a, b] \<Rightarrow> if is_digit a \<and> is_digit b then Some (digit_val a * 10 + digit_val b) else None
                   | _ \<Rightarrow> None)"

definition four_digits :: "string \<Rightarrow> nat option" where
  "four_digits s = (case s of [a, b, c, d] \<Rightarrow>
                      if is_digit a \<and> is_digit b \<and> is_digit c \<and> is_digit d
                      then Some (digit_val a * 1000 + digit_val b * 100 + digit_val c * 10 + digit_val d) else None
                    | _ \<Rightarrow> None)"

definition days_in_month :: "nat \<Rightarrow> nat \<Rightarrow> nat" where
  "days_in_month y m =
     (if m = 2 then (if y mod 4 = 0 \<and> (y mod 100 \<noteq> 0 \<or> y mod 400 = 0) then 29 else 28)
      else if m \<in> set [4, 6, 9, 11] then 30 else 31)"

definition parse_date_time :: "string \<Rightarrow> datetime option" where
  "parse_date_time s =
     (if length s = 19 \<and> s ! 4 = CHR ''-'' \<and> s ! 7 = CHR ''-'' \<and> s ! 10 = CHR '' ''
         \<and> s ! 13 = CHR '':'' \<and> s ! 16 = CHR '':'' then
        (case (four_digits (take 4 s), two_digits (take 2 (drop 5 s)), two_digits (take 2 (drop 8 s)),
               two_digits (take 2 (drop 11 s)), two_digits (take 2 (drop 14 s)), two_digits (take 2 (drop 17 s))) of
           (Some y, Some m, Some d, Some H, Some M, Some S) \<Rightarrow>
             if 1 \<le> y \<and> 1 \<le> m \<and> m \<le> 12 \<and> 1 \<le> d \<and> d \<le> days_in_month y m \<and> H < 24 \<and> M < 60 \<and> S < 60
             then Some (y, m, d, H, M, S, 0) else None
         | _ \<Rightarrow> None)
      else None)"

definition py_strptime :: strptime_fn where
  "py_strptime s fmt =
     (if fmt = ''%Y-%m-%d %H:%M:%S.000'' then
        (if length s = 23 \<and> drop 19 s = ''.000'' then parse_date_time (take 19 s) else None)
      else if fmt = ''%Z %Y-%m-%d %H:%M:%S'' then
        (if take 4 s = ''UTC '' then parse_date_time (drop 4 s) else None)
      else None)"

section \<open>The file list and its order by date\<close>

text \<open>
  \<^verbatim>\<open>FileList\<close>: the paths in order and the metadata of each path (the dictionary
  \<^verbatim>\<open>self.meta\<close>).
\<close>

record FileList =
  paths :: "string list"
  meta :: "string \<rightharpoonup> FileMeta"

text \<open>
  \<^verbatim>\<open>FileList._get_sort_datetime\<close>. \<open>epoch\<close> is \<^verbatim>\<open>datetime.datetime.fromtimestamp(0)\<close>,
  which depends on the local time zone. The result is the key and the records logged.
\<close>

definition get_sort_datetime :: "datetime \<Rightarrow> FileList \<Rightarrow> string \<Rightarrow> error + (datetime \<times> log_record list)" where
  "get_sort_datetime epoch self path =
     (case meta self path of
        None \<Rightarrow> Inl KeyError
      | Some m \<Rightarrow>
          (case datetime m of
             None \<Rightarrow> Inr (epoch, [(WARNING, ''No recorded date for '' @ path @ ''; inserting at beginning'')])
           | Some dt \<Rightarrow> Inr (dt, [])))"

text \<open>
  \<^verbatim>\<open>sorted(xs, key=f)\<close> calls \<open>f\<close> once on each element, in the order of \<open>xs\<close>, and
  then sorts by the keys, keeping elements with equal keys in their order.
\<close>

fun sort_keys :: "('a \<Rightarrow> error + ('k \<times> log_record list)) \<Rightarrow> 'a list \<Rightarrow> error + (('k \<times> 'a) list \<times> log_record list)" where
  "sort_keys key [] = Inr ([], [])"
| "sort_keys key (x # xs) =
     (case key x of
        Inl e \<Rightarrow> Inl e
      | Inr (k, logged) \<Rightarrow>
          (case sort_keys key xs of
             Inl e \<Rightarrow> Inl e
           | Inr (ks, logged') \<Rightarrow> Inr ((k, x) # ks, logged @ logged')))"

definition sorted_by_key :: "('a \<Rightarrow> error + ('k::linorder \<times> log_record list)) \<Rightarrow> 'a list \<Rightarrow> error + ('a list \<times> log_record list)" where
  "sorted_by_key key xs =
     (case sort_keys key xs of
        Inl e \<Rightarrow> Inl e
      | Inr (ks, logged) \<Rightarrow> Inr (map snd (sort_key fst ks), logged))"

definition sort_by_datetime :: "datetime \<Rightarrow> FileList \<Rightarrow> error + (FileList \<times> log_record list)" where
  "sort_by_datetime epoch self =
     (case sorted_by_key (get_sort_datetime epoch self) (paths self) of
        Inl e \<Rightarrow> Inl e
      | Inr (ps, logged) \<Rightarrow> Inr (self\<lparr>paths := ps\<rparr>, logged))"

text \<open>
  \<^verbatim>\<open>FileList.__init__\<close> and \<^verbatim>\<open>FileList.add_file\<close>. \<open>cached\<close> is what
  \<^verbatim>\<open>self._metacache.get(path, self._mediatools.get_meta)\<close> returns; the cache is not among
  the source files.
\<close>

definition FileList_new :: FileList where
  "FileList_new = \<lparr>paths = [], meta = Map.empty\<rparr>"

definition add_file :: "FileMeta \<Rightarrow> string \<Rightarrow> FileList \<Rightarrow> FileList" where
  "add_file cached path self =
     (let self = self\<lparr>meta := (meta self)(path \<mapsto> cached)\<rparr>
      in self\<lparr>paths := paths self @ [path]\<rparr>)"

section \<open>Running ffmpeg and following its log\<close>

text \<open>
  \<^verbatim>\<open>s.strip()\<close>: the characters below 256 that Python counts as white space are dropped
  from both ends.
\<close>

definition py_isspace :: "char \<Rightarrow> bool" where
  "py_isspace c = (c \<in> set [CHR 0x09, CHR 0x0A, CHR 0x0B, CHR 0x0C, CHR 0x0D, CHR 0x1C, CHR 0x1D,
                             CHR 0x1E, CHR 0x1F, CHR 0x20, CHR 0x85, CHR 0xA0])"

definition strip :: "string \<Rightarrow> string" where
  "strip s = dropWhile py_isspace (rev (dropWhile py_isspace (rev s)))"

text \<open>The truth value of a text or \<^verbatim>\<open>None\<close>: false for \<^verbatim>\<open>None\<close> and for the empty text.\<close>

definition truthy_str :: "string option \<Rightarrow> bool" where
  "truthy_str v = (case v of None \<Rightarrow> False | Some s \<Rightarrow> s \<noteq> [])"

text \<open>
  The variables of the monitoring loop, with what it has printed (each entry one
  \<^verbatim>\<open>print\<close> call: the text and its \<^verbatim>\<open>end\<close>) and how often it has slept.
\<close>

record monitor =
  test :: "string option"
  prev_line :: string
  console :: "string list"
  sleeps :: nat

definition monitor_start :: monitor where
  "monitor_start = \<lparr>test = None, prev_line = [], console = [], sleeps = 0\<rparr>"

text \<open>The text that is printed for \<open>line\<close> when the line rendered before it was \<open>prev\<close>.\<close>

definition render :: "string \<Rightarrow> string \<Rightarrow> string" where
  "render prev line =
     (let line_shortness = int (length prev) - int (length line);
          padding = (if line_shortness > 0 then replicate (nat line_shortness) (CHR '' '') else [])
      in strip line @ padding)"

text \<open>
  One pass through the body of \<^verbatim>\<open>while proc.poll() is None\<close>; \<open>r\<close> is what
  \<^verbatim>\<open>logfile_in.readline()\<close> returns in this pass (empty when the log has no more text yet).
\<close>

definition monitor_iter :: "string \<Rightarrow> monitor \<Rightarrow> monitor" where
  "monitor_iter r m =
     (let line = test m;
          m = m\<lparr>test := Some r\<rparr>
      in if \<not> truthy_str (test m) then
           (let m = (if truthy_str line then
                       (case line of
                          None \<Rightarrow> m
                        | Some l \<Rightarrow>
                            if startswith l ''frame='' then
                              m\<lparr>console := console m @ [render (prev_line m) l @ [CR]], prev_line := l\<rparr>
                            else m)
                     else m)
            in m\<lparr>sleeps := sleeps m + 1\<rparr>)
         else m)"

text \<open>
  The loop: the process is alive for as many passes as \<open>rs\<close> has entries, the results
  of \<^verbatim>\<open>readline\<close> in those passes, and has exited when the condition is tested next.
\<close>

fun monitor_loop :: "string list \<Rightarrow> monitor \<Rightarrow> monitor" where
  "monitor_loop [] m = m"
| "monitor_loop (r # rs) m = monitor_loop rs (monitor_iter r m)"

text \<open>Where the standard output and standard error of the process go.\<close>

datatype stream = FileHandle string | DEVNULL

text \<open>
  What the surroundings decide in one call of \<^verbatim>\<open>do_concatenation\<close>:
  \<^item> \<open>mkstemp_path\<close>: the path \<^verbatim>\<open>tempfile.mkstemp\<close> returns;
  \<^item> \<open>open_if_exists_yield\<close>: what \<^verbatim>\<open>util.open_if_exists(logfile_path, "wb")\<close> does, a
    function that is not among the source files: it raises, or yields \<^verbatim>\<open>None\<close>, or
    yields a handle (named here by a text);
  \<^item> \<open>open_read_raises\<close>: the exception of \<^verbatim>\<open>open(logfile_path, "r")\<close>, or \<open>None\<close> when
    the log can be opened for reading;
  \<^item> \<open>readline_results\<close>: what \<^verbatim>\<open>readline\<close> returns in each pass of the monitoring
    loop made while the process is alive;
  \<^item> \<open>returncode\<close>: the exit code of the process.
  The process is taken to start and to exit.
\<close>

record run_env =
  mkstemp_path :: string
  open_if_exists_yield :: "error + string option"
  open_read_raises :: "error option"
  readline_results :: "string list"
  returncode :: int

text \<open>
  Everything a call of \<^verbatim>\<open>do_concatenation\<close> that does not raise leaves behind: the
  command line and output stream of the process it started, the log records, the console
  text, the number of sleeps, and the world. The Python function has no \<^verbatim>\<open>return\<close>
  statement: its value is always \<^verbatim>\<open>None\<close>, so the record has no field for it.
\<close>

record outcome =
  popen_args :: "string list"
  popen_output :: stream
  logged :: "log_record list"
  printed :: "string list"
  slept :: nat
  world_after :: world

definition do_concatenation ::
  "string \<Rightarrow> string list \<Rightarrow> string \<Rightarrow> Preset \<Rightarrow> string option \<Rightarrow> run_env \<Rightarrow> world \<Rightarrow> error + outcome" where
  "do_concatenation ffmpeg_exe input_files output preset logfile_path env w =
     (case open_if_exists_yield env of
        Inl e \<Rightarrow> Inl e
      | Inr f \<Rightarrow>
          (let logfile_handle = (case f of Some h \<Rightarrow> FileHandle h | None \<Rightarrow> DEVNULL);
               lg = [(INFO, ''Starting video processing. This can take a while...'')];
               (params, w) = build_ffmpeg_params preset input_files (mkstemp_path env) w;
               args = [ffmpeg_exe] @ params @ [''-y'', output];
               lg = lg @ [(DEBUG, ''Executing: '' @ join '' '' (map (\<lambda>a. [CHR 0x27] @ a @ [CHR 0x27]) args))];
               finish = (\<lambda>lg pr sl.
                 (let lg = (if returncode env = 0 then lg @ [(INFO, ''Processing done.'')] else lg)
                  in Inr \<lparr>popen_args = args, popen_output = logfile_handle, logged = lg,
                          printed = pr, slept = sl, world_after = w\<rparr>))
           in if truthy_str logfile_path then
                (case open_read_raises env of
                   Some e \<Rightarrow> Inl e
                 | None \<Rightarrow>
                     (let m = monitor_loop (readline_results env) monitor_start;
                          pr = console m @ [[LF]];
                          lg = (if returncode env \<noteq> 0
                                then lg @ [(ERROR, ''Encoding failed. Check the log file for the error.'')]
                                else lg)
                      in finish lg pr (sleeps m)))
              else
                (let lg = (if returncode env \<noteq> 0
                           then lg @ [(ERROR, ''Encoding failed. Re-run with logging to find out what went wrong.'')]
                           else lg)
                 in finish lg [] 0)))"

section \<open>What the specification asks of the argument vector\<close>

text \<open>One \<^verbatim>\<open>-i\<close> and path for each input, in the order of the inputs.\<close>

fun input_pairs :: "string list \<Rightarrow> string list" where
  "input_pairs [] = []"
| "input_pairs (f # fs) = ''-i'' # f # input_pairs fs"

text \<open>
  The shape of the part of the argument vector that depends on the strategy, in the
  words of the specification: one compound input for the protocol; for the filter one
  input pair per file, then \<^verbatim>\<open>-filter_complex\<close> and one graph, then the two mapped
  output labels; for the demuxer the concat format, the unsafe-paths flag and the
  manifest as the input.
\<close>

definition strategy_prefix :: "ConcatStrategy \<Rightarrow> string list \<Rightarrow> string \<Rightarrow> string list \<Rightarrow> bool" where
  "strategy_prefix s input_files manifest_path prefix =
     (case s of
        CONCAT_PROTOCOL \<Rightarrow> prefix = [''-i'', ''concat:'' @ join ''|'' input_files]
      | CONCAT_FILTER \<Rightarrow>
          (let n = length input_files in
             length prefix = 2 * n + 6 \<and>
             take (2 * n) prefix = input_pairs input_files \<and>
             prefix ! (2 * n) = ''-filter_complex'' \<and>
             drop (2 * n + 2) prefix = [''-map'', ''[outv]'', ''-map'', ''[outa]''])
      | CONCAT_DEMUX \<Rightarrow> prefix = [''-f'', ''concat'', ''-safe'', ''0'', ''-i'', manifest_path])"

section \<open>What the specification asks of the metadata and of the order\<close>

text \<open>
  The value that the first date line of a report gives: the first line, in the order of
  the report, that starts with \<^verbatim>\<open>Recorded date\<close> or with \<^verbatim>\<open>Tagged date\<close>, parsed with the
  format of its own label.
\<close>

definition first_date_line :: "strptime_fn \<Rightarrow> string list \<Rightarrow> datetime option" where
  "first_date_line sp ls =
     (case filter (\<lambda>l. startswith l ''Recorded date'' \<or> startswith l ''Tagged date'') ls of
        [] \<Rightarrow> None
      | l # _ \<Rightarrow>
          (case field_value l of
             Inl _ \<Rightarrow> None
           | Inr v \<Rightarrow> if startswith l ''Recorded date'' then sp v ''%Y-%m-%d %H:%M:%S.000''
                      else sp v ''%Z %Y-%m-%d %H:%M:%S''))"

text \<open>A line that cannot make \<^verbatim>\<open>get_meta\<close> raise.\<close>

definition line_parses :: "strptime_fn \<Rightarrow> int_fn \<Rightarrow> string \<Rightarrow> bool" where
  "line_parses sp io l =
     (case field_value l of
        Inl _ \<Rightarrow> \<not> startswith l ''Recorded date'' \<and> \<not> startswith l ''Tagged date''
                  \<and> \<not> startswith l ''Duration'' \<and> \<not> startswith l ''Frame count''
      | Inr v \<Rightarrow>
          (startswith l ''Recorded date'' \<longrightarrow> sp v ''%Y-%m-%d %H:%M:%S.000'' \<noteq> None) \<and>
          (startswith l ''Tagged date'' \<longrightarrow> sp v ''%Z %Y-%m-%d %H:%M:%S'' \<noteq> None) \<and>
          (startswith l ''Frame count'' \<longrightarrow> io v \<noteq> None))"

text \<open>A line that is no \<^verbatim>\<open>Duration\<close> line with a valid integer.\<close>

definition no_duration_value :: "int_fn \<Rightarrow> string \<Rightarrow> bool" where
  "no_duration_value io l =
     (startswith l ''Duration'' \<longrightarrow> (case field_value l of Inl _ \<Rightarrow> True | Inr v \<Rightarrow> io v = None))"

text \<open>Whether the metadata of a path has no date, and the key the path is sorted by.\<close>

definition unset_datetime :: "FileList \<Rightarrow> string \<Rightarrow> bool" where
  "unset_datetime self p = (case meta self p of None \<Rightarrow> False | Some m \<Rightarrow> datetime m = None)"

definition datetime_or :: "datetime \<Rightarrow> FileList \<Rightarrow> string \<Rightarrow> datetime" where
  "datetime_or epoch self p =
     (case meta self p of None \<Rightarrow> epoch | Some m \<Rightarrow> (case datetime m of None \<Rightarrow> epoch | Some d \<Rightarrow> d))"

definition no_date_warning :: "string \<Rightarrow> log_record" where
  "no_date_warning p = (WARNING, ''No recorded date for '' @ p @ ''; inserting at beginning'')"

section \<open>Inputs of the examples\<close>

definition example_files :: FileList where
  "example_files = \<lparr>paths = [''y'', ''x'', ''z''],
          meta = map_of [(''x'', \<lparr>datetime = None, milliseconds = None, frames = None\<rparr>),
                         (''y'', \<lparr>datetime = Some (2020, 1, 1, 0, 0, 0, 0), milliseconds = None, frames = None\<rparr>),
                         (''z'', \<lparr>datetime = None, milliseconds = None, frames = None\<rparr>)]\<rparr>"

text \<open>The epoch origin in the time zone UTC.\<close>

definition utc_epoch :: datetime where
  "utc_epoch = (1970, 1, 1, 0, 0, 0, 0)"

definition example_env :: run_env where
  "example_env = \<lparr>mkstemp_path = ''/tmp/m'', open_if_exists_yield = Inr None, open_read_raises = None,
           readline_results = [], returncode = 0\<rparr>"

definition logging_env :: run_env where
  "logging_env = \<lparr>mkstemp_path = ''/tmp/m'', open_if_exists_yield = Inr (Some ''log.txt''),
           open_read_raises = None,
           readline_results = [''frame=10 aaaaaaaaaa'' @ [LF], [], ''frame=5'' @ [LF], []], returncode = 0\<rparr>"

definition empty_world :: world where
  "empty_world = \<lparr>files = Map.empty, atexit_unlink = []\<rparr>"

section \<open>Properties of the argument vector and the manifest\<close>

lemma concat_pairs: "concat (map (\<lambda>f. [''-i'', f]) xs) = input_pairs xs"
  by (induction xs) auto

lemma length_input_pairs: "length (input_pairs xs) = 2 * length xs"
  by (induction xs) auto

lemma build_prefix_suffix:
  "let args = fst (build_ffmpeg_params p input_files tempfile_path w);
       k = length args - length (ffmpeg_params p)
   in drop k args = ffmpeg_params p \<and>
      strategy_prefix (concat_strategy p) input_files tempfile_path (take k args)"
  by (cases "concat_strategy p")
     (simp_all add: build_ffmpeg_params_def strategy_prefix_def Let_def concat_pairs length_input_pairs nth_append)

lemma write_manifest_eq: "write_manifest fs tf = tf @ concat (map manifest_line fs)"
  by (induction fs arbitrary: tf) auto

lemma splitlines_from_line:
  "\<forall>c\<in>set l. \<not> is_linebreak c \<Longrightarrow> splitlines_from cur (l @ LF # rest) = (cur @ l) # splitlines_from [] rest"
proof (induction l arbitrary: cur)
  case Nil
  then show ?case by (simp add: is_linebreak_def)
next
  case (Cons a l)
  then have "a \<noteq> CR" by (auto simp: is_linebreak_def)
  with Cons show ?case by simp
qed

text \<open>
  C1. For every preset of the catalog and every list of input paths, the argument vector
  that \<^verbatim>\<open>build_ffmpeg_params\<close> returns ends with the encoder arguments of the preset,
  unchanged, and what stands before them has the shape of the preset's strategy: for the
  protocol \<^verbatim>\<open>-i\<close> and one token \<^verbatim>\<open>concat:\<close> with the paths joined by \<^verbatim>\<open>|\<close>; for the
  filter one \<^verbatim>\<open>-i\<close> and path per input in order, then \<^verbatim>\<open>-filter_complex\<close> and the graph,
  then \<^verbatim>\<open>-map [outv] -map [outa]\<close>; for the demuxer
  \<^verbatim>\<open>-f concat -safe 0 -i\<close> and the manifest path.
\<close>

theorem build_ffmpeg_params_strategy_prefix:
  assumes "map_of encode_presets name = Some p"
  shows "let args = fst (build_ffmpeg_params p input_files tempfile_path w);
             k = length args - length (ffmpeg_params p)
         in drop k args = ffmpeg_params p \<and>
            strategy_prefix (concat_strategy p) input_files tempfile_path (take k args)"
  by (rule build_prefix_suffix)

theorem build_ffmpeg_params_strategy_prefix_witness:
  "map_of encode_presets ''1080p'' = Some preset_1080p \<and>
   fst (build_ffmpeg_params preset_1080p [''a.dv'', ''b.dv''] ''/tmp/m'' \<lparr>files = Map.empty, atexit_unlink = []\<rparr>)
     = [''-i'', ''a.dv'', ''-i'', ''b.dv'', ''-filter_complex'',
        ''concat=n=2:v=1:a=1[catv][outa];[catv]scale=-1:1080[outv]'',
        ''-map'', ''[outv]'', ''-map'', ''[outa]'',
        ''-c:v'', ''libx265'', ''-crf'', ''28'', ''-preset'', ''medium'', ''-c:a'', ''flac''] \<and>
   strategy_prefix CONCAT_FILTER [''a.dv'', ''b.dv''] ''/tmp/m''
     [''-i'', ''a.dv'', ''-i'', ''b.dv'', ''-filter_complex'',
      ''concat=n=2:v=1:a=1[catv][outa];[catv]scale=-1:1080[outv]'',
      ''-map'', ''[outv]'', ''-map'', ''[outa]'']"
proof -
  have h: "map_of encode_presets ''1080p'' = Some preset_1080p"
    by (simp add: encode_presets_def)
  have e: "fst (build_ffmpeg_params preset_1080p [''a.dv'', ''b.dv''] ''/tmp/m'' \<lparr>files = Map.empty, atexit_unlink = []\<rparr>)
     = [''-i'', ''a.dv'', ''-i'', ''b.dv'', ''-filter_complex'',
        ''concat=n=2:v=1:a=1[catv][outa];[catv]scale=-1:1080[outv]'',
        ''-map'', ''[outv]'', ''-map'', ''[outa]'',
        ''-c:v'', ''libx265'', ''-crf'', ''28'', ''-preset'', ''medium'', ''-c:a'', ''flac'']"
    by (simp add: build_ffmpeg_params_def preset_1080p_def filter_graph_def str_nat.simps digit_char_def)
  have c: "concat_strategy preset_1080p = CONCAT_FILTER" "length (ffmpeg_params preset_1080p) = 8"
    by (simp_all add: preset_1080p_def)
  from build_ffmpeg_params_strategy_prefix [OF h, of "[''a.dv'', ''b.dv'']" "''/tmp/m''" "\<lparr>files = Map.empty, atexit_unlink = []\<rparr>"]
  show ?thesis using h by (simp add: e c Let_def)
qed

text \<open>
  C4, as amended. For every list of input paths none of which holds a character that
  ends a line, a demuxer preset leaves at the fresh path that \<^verbatim>\<open>mkstemp\<close> returns a
  manifest file whose lines, read back, are exactly one directive \<^verbatim>\<open>file 'file:<path>'\<close> per input, in the order of the
  inputs, with every backslash of the path replaced by a forward slash; no other file
  changes, and the manifest is registered for removal at exit.
\<close>

theorem demux_manifest_lines:
  assumes "concat_strategy p = CONCAT_DEMUX"
    and "\<forall>f\<in>set input_files. \<forall>c\<in>set f. \<not> is_linebreak c"
  shows "case build_ffmpeg_params p input_files tempfile_path w of (args, w') \<Rightarrow>
           (\<exists>content. files w' tempfile_path = Some content \<and>
              splitlines content =
                map (\<lambda>f. ''file '' @ [CHR 0x27] @ ''file:'' @ replace_char (CHR 0x5C) (CHR ''/'') f @ [CHR 0x27]) input_files) \<and>
           (\<forall>q. q \<noteq> tempfile_path \<longrightarrow> files w' q = files w q) \<and>
           atexit_unlink w' = atexit_unlink w @ [tempfile_path]"
proof -
  have "splitlines_from [] (concat (map manifest_line fs)) =
          map (\<lambda>f. ''file '' @ [CHR 0x27] @ ''file:'' @ replace_char (CHR 0x5C) (CHR ''/'') f @ [CHR 0x27]) fs"
    if "\<forall>f\<in>set fs. \<forall>c\<in>set f. \<not> is_linebreak c" for fs
    using that
  proof (induction fs)
    case Nil
    then show ?case by simp
  next
    case (Cons f fs)
    let ?l = "''file '' @ [CHR 0x27] @ ''file:'' @ replace_char (CHR 0x5C) (CHR ''/'') f @ [CHR 0x27]"
    have nl: "\<forall>c\<in>set ?l. \<not> is_linebreak c"
      using Cons.prems by (auto simp: replace_char_def is_linebreak_def)
    have "manifest_line f = ?l @ LF # []"
      by (simp add: manifest_line_def)
    then have "concat (map manifest_line (f # fs)) = ?l @ LF # concat (map manifest_line fs)"
      by simp
    then have "splitlines_from [] (concat (map manifest_line (f # fs))) =
                 ([] @ ?l) # splitlines_from [] (concat (map manifest_line fs))"
      using splitlines_from_line [OF nl] by simp
    with Cons show ?case by simp
  qed
  with assms show ?thesis
    by (simp add: build_ffmpeg_params_def splitlines_def write_manifest_eq)
qed

theorem demux_manifest_lines_witness:
  "concat_strategy preset_copy = CONCAT_DEMUX \<and>
   splitlines (the (files (snd (build_ffmpeg_params preset_copy [''a.dv'', ''c:'' @ [CHR 0x5C] @ ''b.dv''] ''/tmp/m''
       \<lparr>files = Map.empty, atexit_unlink = []\<rparr>)) ''/tmp/m''))
     = [''file '' @ [CHR 0x27] @ ''file:a.dv'' @ [CHR 0x27],
        ''file '' @ [CHR 0x27] @ ''file:c:/b.dv'' @ [CHR 0x27]]"
proof -
  have h1: "concat_strategy preset_copy = CONCAT_DEMUX"
    by (simp add: preset_copy_def)
  have h2: "\<forall>f\<in>set [''a.dv'', ''c:'' @ [CHR 0x5C] @ ''b.dv'']. \<forall>c\<in>set f. \<not> is_linebreak c"
    by (simp add: is_linebreak_def)
  from demux_manifest_lines [OF h1 h2, of "''/tmp/m''" "\<lparr>files = Map.empty, atexit_unlink = []\<rparr>"]
  show ?thesis using h1 by (auto simp: replace_char_def split: prod.splits)
qed

text \<open>
  A path that holds a line feed gives two lines in the manifest for one input, so C4 does
  not hold for every list of input paths.
\<close>

theorem demux_manifest_lines_counterexample:
  "splitlines (the (files (snd (build_ffmpeg_params preset_copy [[CHR ''a'', LF, CHR ''b'']] ''/tmp/m''
       \<lparr>files = Map.empty, atexit_unlink = []\<rparr>)) ''/tmp/m''))
     = [''file '' @ [CHR 0x27] @ ''file:a'', ''b'' @ [CHR 0x27]]"
  by (simp add: build_ffmpeg_params_def preset_copy_def manifest_line_def replace_char_def
        splitlines_def is_linebreak_def)

section \<open>Properties of the metadata extraction\<close>

lemma and_then_Inr: "and_then r f = Inr y \<longleftrightarrow> (\<exists>x. r = Inr x \<and> f x = Inr y)"
  by (cases r) (simp_all add: and_then_def)

lemma recorded_date_step_datetime:
  assumes "recorded_date_step sp l info = Inr info'"
  shows "milliseconds info' = milliseconds info" "frames info' = frames info"
    "datetime info' =
       (if startswith l ''Recorded date'' \<and> datetime info = None
        then (case field_value l of Inl _ \<Rightarrow> None | Inr v \<Rightarrow> sp v ''%Y-%m-%d %H:%M:%S.000'')
        else datetime info)"
    "startswith l ''Recorded date'' \<Longrightarrow> datetime info' \<noteq> None"
  using assms unfolding recorded_date_step_def truthy_datetime_def
  by (simp_all split: if_splits sum.splits option.splits, auto)

lemma tagged_date_step_datetime:
  assumes "tagged_date_step sp l info = Inr info'"
  shows "milliseconds info' = milliseconds info" "frames info' = frames info"
    "datetime info' =
       (if startswith l ''Tagged date'' \<and> datetime info = None
        then (case field_value l of Inl _ \<Rightarrow> None | Inr v \<Rightarrow> sp v ''%Z %Y-%m-%d %H:%M:%S'')
        else datetime info)"
    "startswith l ''Tagged date'' \<Longrightarrow> datetime info' \<noteq> None"
  using assms unfolding tagged_date_step_def truthy_datetime_def
  by (simp_all split: if_splits sum.splits option.splits, auto)

lemma duration_step_fields:
  assumes "duration_step io l info = Inr info'"
  shows "datetime info' = datetime info" "frames info' = frames info"
    "milliseconds info' =
       (if startswith l ''Duration'' \<and> \<not> truthy_int (milliseconds info)
        then (case field_value l of Inl _ \<Rightarrow> milliseconds info
              | Inr v \<Rightarrow> (case io v of None \<Rightarrow> milliseconds info | Some n \<Rightarrow> Some n))
        else milliseconds info)"
  using assms unfolding duration_step_def
  by (simp_all split: if_splits sum.splits option.splits, auto)

lemma frame_count_step_fields:
  assumes "frame_count_step io l info = Inr info'"
  shows "datetime info' = datetime info" "milliseconds info' = milliseconds info"
    "frames info' =
       (if startswith l ''Frame count'' \<and> \<not> truthy_int (frames info)
        then (case field_value l of Inl _ \<Rightarrow> None | Inr v \<Rightarrow> io v)
        else frames info)"
  using assms unfolding frame_count_step_def
  by (simp_all split: if_splits sum.splits option.splits, auto)

lemma not_both_dates: "startswith l ''Recorded date'' \<Longrightarrow> \<not> startswith l ''Tagged date''"
  by (cases l) auto

lemma get_meta_line_datetime:
  assumes "get_meta_line sp io l info = Inr info'"
  shows "datetime info' =
           (if datetime info \<noteq> None then datetime info else first_date_line sp [l])"
    and "startswith l ''Recorded date'' \<or> startswith l ''Tagged date'' \<Longrightarrow> datetime info' \<noteq> None"
proof -
  from assms obtain i1 i2 i3 where
    s1: "recorded_date_step sp l info = Inr i1" and
    s2: "tagged_date_step sp l i1 = Inr i2" and
    s3: "duration_step io l i2 = Inr i3" and
    s4: "frame_count_step io l i3 = Inr info'"
    unfolding get_meta_line_def and_then_Inr by blast
  have e: "datetime info' = datetime i2"
    using duration_step_fields(1) [OF s3] frame_count_step_fields(1) [OF s4] by simp
  note r = recorded_date_step_datetime(3,4) [OF s1]
  note t = tagged_date_step_datetime(3,4) [OF s2]
  show "datetime info' =
           (if datetime info \<noteq> None then datetime info else first_date_line sp [l])"
  proof (cases "datetime info")
    case (Some a)
    then show ?thesis unfolding e t(1) r(1) by simp
  next
    case None
    show ?thesis
    proof (cases "startswith l ''Recorded date''")
      case True
      then have nt: "\<not> startswith l ''Tagged date''" by (rule not_both_dates)
      have "datetime i1 \<noteq> None" using True by (rule r(2))
      then have "datetime i2 = datetime i1" unfolding t(1) by (cases "datetime i1") simp_all
      with True nt None show ?thesis
        unfolding e r(1) first_date_line_def by (simp split: sum.splits)
    next
      case False
      with None have "datetime i1 = None" unfolding r(1) by simp
      with False None show ?thesis
        unfolding e t(1) first_date_line_def by (simp split: sum.splits)
    qed
  qed
  show "datetime info' \<noteq> None" if "startswith l ''Recorded date'' \<or> startswith l ''Tagged date''"
  proof (cases "startswith l ''Recorded date''")
    case True
    then have "datetime i1 \<noteq> None" by (rule r(2))
    then show ?thesis unfolding e t(1) by (cases "datetime i1") simp_all
  next
    case False
    with that have "startswith l ''Tagged date''" by simp
    then show ?thesis unfolding e by (rule t(2))
  qed
qed

lemma first_date_line_Cons:
  "first_date_line sp (l # ls) =
     (if startswith l ''Recorded date'' \<or> startswith l ''Tagged date'' then first_date_line sp [l]
      else first_date_line sp ls)"
  by (simp add: first_date_line_def)

lemma get_meta_lines_datetime:
  assumes "get_meta_lines sp io ls info = Inr info'"
  shows "datetime info' = (if datetime info \<noteq> None then datetime info else first_date_line sp ls)"
  using assms
proof (induction ls arbitrary: info)
  case Nil
  then show ?case by (cases "datetime info") (simp_all add: first_date_line_def)
next
  case (Cons l ls)
  from Cons.prems obtain mid where
    step: "get_meta_line sp io l info = Inr mid" and rest: "get_meta_lines sp io ls mid = Inr info'"
    by (auto simp: and_then_Inr)
  note d = get_meta_line_datetime [OF step]
  have r: "datetime info' = (if datetime mid \<noteq> None then datetime mid else first_date_line sp ls)"
    by (rule Cons.IH [OF rest])
  show ?case
  proof (cases "startswith l ''Recorded date'' \<or> startswith l ''Tagged date''")
    case True
    then have "datetime mid \<noteq> None" by (rule d(2))
    with True show ?thesis unfolding r
      by (cases "datetime mid"; cases "datetime info") (simp_all add: d(1) first_date_line_Cons [of sp l ls])
  next
    case False
    then have "first_date_line sp [l] = None" by (simp add: first_date_line_def)
    with False show ?thesis unfolding r
      by (cases "datetime mid"; cases "datetime info") (simp_all add: d(1) first_date_line_Cons [of sp l ls])
  qed
qed

lemma first_date_line_append:
  "first_date_line sp pre \<noteq> None \<Longrightarrow> first_date_line sp (pre @ post) = first_date_line sp pre"
  unfolding first_date_line_def
  by (cases "filter (\<lambda>l. startswith l ''Recorded date'' \<or> startswith l ''Tagged date'') pre") simp_all

lemma tagged_then_recorded:
  "get_meta py_strptime py_int (''Tagged date: UTC 2021-05-01 12:00:00'' @ [LF] @ ''Recorded date: 2022-01-01 00:00:00.000'')
     = Inr \<lparr>datetime = Some (2021, 5, 1, 12, 0, 0, 0), milliseconds = None, frames = None\<rparr>"
  by code_simp

text \<open>
  C3, as amended. For every metadata report on which \<^verbatim>\<open>get_meta\<close> returns, the
  \<^verbatim>\<open>datetime\<close> field is taken from the first line, in the order of the report, that
  begins with \<^verbatim>\<open>Recorded date\<close> or with \<^verbatim>\<open>Tagged date\<close>, parsed with the format of that
  line's label (and is unset when there is no such line). So a \<^verbatim>\<open>Recorded date\<close> line wins
  over a \<^verbatim>\<open>Tagged date\<close> line when it comes first, and a \<^verbatim>\<open>Tagged date\<close> line that comes
  first wins over it; once a line has set the field, no later line overwrites it.
\<close>

theorem get_meta_datetime_first_date_line:
  assumes "get_meta strptime int_of output = Inr info"
  shows "datetime info = first_date_line strptime (splitlines output) \<and>
         (\<forall>pre post. splitlines output = pre @ post \<and> first_date_line strptime pre \<noteq> None
            \<longrightarrow> datetime info = first_date_line strptime pre)"
proof -
  have "datetime FileMeta_new = None" by (simp add: FileMeta_new_def)
  with get_meta_lines_datetime [OF assms [unfolded get_meta_def]]
  have a: "datetime info = first_date_line strptime (splitlines output)" by simp
  show ?thesis using a first_date_line_append by metis
qed

theorem get_meta_datetime_first_date_line_witness:
  "get_meta py_strptime py_int (''Tagged date: UTC 2021-05-01 12:00:00'' @ [LF] @ ''Recorded date: 2022-01-01 00:00:00.000'')
     = Inr \<lparr>datetime = Some (2021, 5, 1, 12, 0, 0, 0), milliseconds = None, frames = None\<rparr> \<and>
   first_date_line py_strptime
     (splitlines (''Tagged date: UTC 2021-05-01 12:00:00'' @ [LF] @ ''Recorded date: 2022-01-01 00:00:00.000''))
     = Some (2021, 5, 1, 12, 0, 0, 0)"
  using get_meta_datetime_first_date_line [OF tagged_then_recorded] tagged_then_recorded by simp

text \<open>
  A report with a \<^verbatim>\<open>Tagged date\<close> line before its \<^verbatim>\<open>Recorded date\<close> line: the field holds
  the tagged date, not the recorded one, so the recorded date does not always win.
\<close>

theorem get_meta_datetime_first_date_line_counterexample:
  "get_meta py_strptime py_int (''Tagged date: UTC 2021-05-01 12:00:00'' @ [LF] @ ''Recorded date: 2022-01-01 00:00:00.000'')
     = Inr \<lparr>datetime = Some (2021, 5, 1, 12, 0, 0, 0), milliseconds = None, frames = None\<rparr> \<and>
   py_strptime ''2022-01-01 00:00:00.000'' ''%Y-%m-%d %H:%M:%S.000'' = Some (2022, 1, 1, 0, 0, 0, 0)"
  by code_simp

text \<open>
  C8. The claim is that the first matching line alone determines a field, also when the
  value it gives is zero. On the code a \<^verbatim>\<open>Duration\<close> or \<^verbatim>\<open>Frame count\<close> of zero is taken
  for an unset field (\<^verbatim>\<open>not info.milliseconds\<close> is true of \<^verbatim>\<open>0\<close>), and the next line with
  the label overwrites it.
\<close>

theorem get_meta_zero_is_overwritten:
  "get_meta py_strptime py_int (''Duration: 0'' @ [LF] @ ''Duration: 5'')
     = Inr \<lparr>datetime = None, milliseconds = Some 5, frames = None\<rparr> \<and>
   get_meta py_strptime py_int (''Frame count: 0'' @ [LF] @ ''Frame count: 7'')
     = Inr \<lparr>datetime = None, milliseconds = None, frames = Some 7\<rparr> \<and>
   get_meta py_strptime py_int ''Duration: 0''
     = Inr \<lparr>datetime = None, milliseconds = Some 0, frames = None\<rparr>"
  by code_simp

lemma recorded_date_step_ok:
  "line_parses sp io l \<Longrightarrow> \<exists>i. recorded_date_step sp l info = Inr i"
  unfolding line_parses_def recorded_date_step_def
  by (cases "field_value l") (auto split: option.splits)

lemma tagged_date_step_ok:
  "line_parses sp io l \<Longrightarrow> \<exists>i. tagged_date_step sp l info = Inr i"
  unfolding line_parses_def tagged_date_step_def
  by (cases "field_value l") (auto split: option.splits)

lemma duration_step_ok:
  "line_parses sp io l \<Longrightarrow> \<exists>i. duration_step io l info = Inr i"
  unfolding line_parses_def duration_step_def
  by (cases "field_value l") (auto split: option.splits)

lemma frame_count_step_ok:
  "line_parses sp io l \<Longrightarrow> \<exists>i. frame_count_step io l info = Inr i"
  unfolding line_parses_def frame_count_step_def
  by (cases "field_value l") (auto split: option.splits)

lemma get_meta_line_ok:
  assumes "line_parses sp io l"
  shows "\<exists>mid. get_meta_line sp io l info = Inr mid \<and>
           (\<not> startswith l ''Frame count'' \<longrightarrow> frames mid = frames info) \<and>
           (no_duration_value io l \<longrightarrow> milliseconds mid = milliseconds info)"
proof -
  from recorded_date_step_ok [OF assms] obtain i1 where s1: "recorded_date_step sp l info = Inr i1" by blast
  from tagged_date_step_ok [OF assms] obtain i2 where s2: "tagged_date_step sp l i1 = Inr i2" by blast
  from duration_step_ok [OF assms] obtain i3 where s3: "duration_step io l i2 = Inr i3" by blast
  from frame_count_step_ok [OF assms] obtain i4 where s4: "frame_count_step io l i3 = Inr i4" by blast
  have g: "get_meta_line sp io l info = Inr i4"
    by (simp add: get_meta_line_def and_then_def s1 s2 s3 s4)
  have f: "\<not> startswith l ''Frame count'' \<longrightarrow> frames i4 = frames info"
    using recorded_date_step_datetime(2) [OF s1] tagged_date_step_datetime(2) [OF s2]
      duration_step_fields(2) [OF s3] frame_count_step_fields(3) [OF s4] by simp
  have "no_duration_value io l \<longrightarrow> milliseconds i3 = milliseconds i2"
    unfolding duration_step_fields(3) [OF s3] no_duration_value_def
    by (simp split: sum.splits)
  then have m: "no_duration_value io l \<longrightarrow> milliseconds i4 = milliseconds info"
    using recorded_date_step_datetime(1) [OF s1] tagged_date_step_datetime(1) [OF s2]
      frame_count_step_fields(2) [OF s4] by simp
  from g f m show ?thesis by blast
qed

lemma get_meta_lines_ok:
  assumes "\<forall>l\<in>set ls. line_parses sp io l"
  shows "\<exists>info'. get_meta_lines sp io ls info = Inr info' \<and>
           ((\<forall>l\<in>set ls. \<not> startswith l ''Frame count'') \<longrightarrow> frames info' = frames info) \<and>
           ((\<forall>l\<in>set ls. no_duration_value io l) \<longrightarrow> milliseconds info' = milliseconds info)"
  using assms
proof (induction ls arbitrary: info)
  case Nil
  then show ?case by simp
next
  case (Cons l ls)
  then have "line_parses sp io l" by simp
  from get_meta_line_ok [OF this, of info] obtain mid where
    g: "get_meta_line sp io l info = Inr mid" and
    f: "\<not> startswith l ''Frame count'' \<longrightarrow> frames mid = frames info" and
    m: "no_duration_value io l \<longrightarrow> milliseconds mid = milliseconds info" by blast
  from Cons.prems have "\<forall>l\<in>set ls. line_parses sp io l" by simp
  from Cons.IH [OF this, of mid] obtain info' where
    g': "get_meta_lines sp io ls mid = Inr info'" and
    f': "(\<forall>l\<in>set ls. \<not> startswith l ''Frame count'') \<longrightarrow> frames info' = frames mid" and
    m': "(\<forall>l\<in>set ls. no_duration_value io l) \<longrightarrow> milliseconds info' = milliseconds mid" by blast
  have "get_meta_lines sp io (l # ls) info = Inr info'"
    by (simp add: and_then_def g g')
  with f m f' m' show ?case by simp
qed

text \<open>
  C9, as amended. For every metadata report in which each line that begins with one of
  the four labels holds the separator, and each \<^verbatim>\<open>Recorded date\<close>, \<^verbatim>\<open>Tagged date\<close> and
  \<^verbatim>\<open>Frame count\<close> line holds a value that its parser accepts, \<^verbatim>\<open>get_meta\<close> raises no
  exception, whatever the values of the \<^verbatim>\<open>Duration\<close> lines are: a \<^verbatim>\<open>Duration\<close> value
  that is no integer is passed over. The date is left unset when no line has a date
  label, the frame count when no line has its label, and the duration when no
  \<^verbatim>\<open>Duration\<close> line holds an integer.
\<close>

theorem get_meta_parse_miss:
  assumes "\<forall>l\<in>set (splitlines output). line_parses strptime int_of l"
  shows "\<exists>info. get_meta strptime int_of output = Inr info \<and>
           ((\<forall>l\<in>set (splitlines output). \<not> startswith l ''Recorded date'' \<and> \<not> startswith l ''Tagged date'')
              \<longrightarrow> datetime info = None) \<and>
           ((\<forall>l\<in>set (splitlines output). \<not> startswith l ''Frame count'') \<longrightarrow> frames info = None) \<and>
           ((\<forall>l\<in>set (splitlines output). no_duration_value int_of l) \<longrightarrow> milliseconds info = None)"
proof -
  from get_meta_lines_ok [OF assms, of FileMeta_new] obtain info where
    g: "get_meta strptime int_of output = Inr info" and
    f: "(\<forall>l\<in>set (splitlines output). \<not> startswith l ''Frame count'') \<longrightarrow> frames info = None" and
    m: "(\<forall>l\<in>set (splitlines output). no_duration_value int_of l) \<longrightarrow> milliseconds info = None"
    unfolding get_meta_def by (auto simp: FileMeta_new_def)
  have d: "datetime info = first_date_line strptime (splitlines output)"
    using get_meta_lines_datetime [OF g [unfolded get_meta_def]] by (simp add: FileMeta_new_def)
  have "first_date_line strptime (splitlines output) = None"
    if "\<forall>l\<in>set (splitlines output). \<not> startswith l ''Recorded date'' \<and> \<not> startswith l ''Tagged date''"
  proof -
    from that have "filter (\<lambda>l. startswith l ''Recorded date'' \<or> startswith l ''Tagged date'') (splitlines output) = []"
      by (simp add: filter_empty_conv)
    then show ?thesis by (simp add: first_date_line_def)
  qed
  with g f m d show ?thesis by simp
qed

theorem get_meta_parse_miss_witness:
  "\<exists>info. get_meta py_strptime py_int (''Duration: not-a-number'' @ [LF] @ ''Frame count: 250'') = Inr info \<and>
          datetime info = None \<and> milliseconds info = None"
proof -
  have l: "splitlines (''Duration: not-a-number'' @ [LF] @ ''Frame count: 250'')
             = [''Duration: not-a-number'', ''Frame count: 250'']"
    by code_simp
  have p1: "line_parses py_strptime py_int ''Duration: not-a-number''" by code_simp
  have p2: "line_parses py_strptime py_int ''Frame count: 250''" by code_simp
  have n1: "no_duration_value py_int ''Duration: not-a-number''" by code_simp
  have n2: "no_duration_value py_int ''Frame count: 250''" by code_simp
  have h: "\<forall>l\<in>set (splitlines (''Duration: not-a-number'' @ [LF] @ ''Frame count: 250'')).
             line_parses py_strptime py_int l"
    unfolding l using p1 p2 by simp
  from get_meta_parse_miss [OF h] obtain info where
    "get_meta py_strptime py_int (''Duration: not-a-number'' @ [LF] @ ''Frame count: 250'') = Inr info"
    "(\<forall>l\<in>set (splitlines (''Duration: not-a-number'' @ [LF] @ ''Frame count: 250'')).
        \<not> startswith l ''Recorded date'' \<and> \<not> startswith l ''Tagged date'') \<longrightarrow> datetime info = None"
    "(\<forall>l\<in>set (splitlines (''Duration: not-a-number'' @ [LF] @ ''Frame count: 250'')).
        no_duration_value py_int l) \<longrightarrow> milliseconds info = None"
    by blast
  then show ?thesis unfolding l using n1 n2 by (intro exI [of _ info]) simp
qed

text \<open>
  A malformed \<^verbatim>\<open>Frame count\<close>, \<^verbatim>\<open>Recorded date\<close> or \<^verbatim>\<open>Tagged date\<close> value raises
  \<^verbatim>\<open>ValueError\<close>, and so does not leave the field unset without an exception.
\<close>

theorem get_meta_parse_miss_counterexample:
  "get_meta py_strptime py_int ''Frame count: abc'' = Inl ValueError \<and>
   get_meta py_strptime py_int ''Recorded date: yesterday'' = Inl ValueError \<and>
   get_meta py_strptime py_int ''Tagged date: yesterday'' = Inl ValueError"
  by code_simp

section \<open>Properties of the order by date\<close>

text \<open>Every list built by \<^verbatim>\<open>add_file\<close> has the metadata of each of its paths.\<close>

lemma FileList_new_has_meta: "\<forall>p\<in>set (paths FileList_new). meta FileList_new p \<noteq> None"
  by (simp add: FileList_new_def)

lemma add_file_has_meta:
  "\<forall>p\<in>set (paths self). meta self p \<noteq> None \<Longrightarrow>
   \<forall>p\<in>set (paths (add_file cached path self)). meta (add_file cached path self) p \<noteq> None"
  by (simp add: add_file_def Let_def)

lemma sort_keys_datetime:
  assumes "\<forall>p\<in>set ps. meta self p \<noteq> None"
  shows "sort_keys (get_sort_datetime epoch self) ps =
           Inr (map (\<lambda>p. (datetime_or epoch self p, p)) ps,
                map no_date_warning (filter (unset_datetime self) ps))"
  using assms
proof (induction ps)
  case Nil
  then show ?case by simp
next
  case (Cons p ps)
  then obtain m where m: "meta self p = Some m" by auto
  from Cons have ih: "sort_keys (get_sort_datetime epoch self) ps =
           Inr (map (\<lambda>p. (datetime_or epoch self p, p)) ps,
                map no_date_warning (filter (unset_datetime self) ps))" by simp
  have k: "get_sort_datetime epoch self p =
             Inr (datetime_or epoch self p, if unset_datetime self p then [no_date_warning p] else [])"
    by (cases "datetime m")
       (simp_all add: m get_sort_datetime_def datetime_or_def unset_datetime_def no_date_warning_def)
  show ?case by (simp add: ih k)
qed

lemma insort_key_decorated:
  "insort_key fst (f x, x) (map (\<lambda>p. (f p, p)) ys) = map (\<lambda>p. (f p, p)) (insort_key f x ys)"
  by (induction ys) simp_all

lemma sort_key_decorated:
  "map snd (sort_key fst (map (\<lambda>p. (f p, p)) xs)) = sort_key f xs"
proof -
  have "sort_key fst (map (\<lambda>p. (f p, p)) xs) = map (\<lambda>p. (f p, p)) (sort_key f xs)"
    by (induction xs) (simp_all add: insort_key_decorated)
  then show ?thesis by (simp add: comp_def)
qed

lemma sort_by_datetime_eq:
  assumes "\<forall>p\<in>set (paths self). meta self p \<noteq> None"
  shows "sort_by_datetime epoch self =
           Inr (self\<lparr>paths := sort_key (datetime_or epoch self) (paths self)\<rparr>,
                map no_date_warning (filter (unset_datetime self) (paths self)))"
  by (simp add: sort_by_datetime_def sorted_by_key_def sort_keys_datetime [OF assms] sort_key_decorated)

text \<open>
  C7. When every path of the list has its metadata, \<^verbatim>\<open>sort_by_datetime\<close> returns the
  paths rearranged (the same paths, as often) in ascending order of the date of their
  metadata, where a path whose date is unset counts as the epoch origin: each such path
  stands before every path with a date later than the epoch, paths with equal keys keep
  their order, and the warnings logged are exactly one per path with an unset date, each
  naming its path, in the order of the paths before the sort.
\<close>

theorem sort_by_datetime_unset_first:
  assumes "\<forall>p\<in>set (paths self). meta self p \<noteq> None"
  shows "\<exists>ps. sort_by_datetime epoch self =
                 Inr (self\<lparr>paths := ps\<rparr>, map no_date_warning (filter (unset_datetime self) (paths self))) \<and>
              mset ps = mset (paths self) \<and>
              sorted (map (datetime_or epoch self) ps) \<and>
              (\<forall>i j. i < length ps \<and> j < length ps \<and> unset_datetime self (ps ! i) \<and>
                     epoch < datetime_or epoch self (ps ! j) \<longrightarrow> i < j) \<and>
              (\<forall>k. filter (\<lambda>p. datetime_or epoch self p = k) ps =
                    filter (\<lambda>p. datetime_or epoch self p = k) (paths self))"
proof -
  let ?k = "datetime_or epoch self"
  let ?ps = "sort_key ?k (paths self)"
  have s: "sorted (map ?k ?ps)" by (rule sorted_sort_key)
  have "i < j" if "i < length ?ps" "j < length ?ps" "unset_datetime self (?ps ! i)" "epoch < ?k (?ps ! j)" for i j
  proof (rule ccontr)
    assume "\<not> i < j"
    then have "j \<le> i" by simp
    with s that(1) have "map ?k ?ps ! j \<le> map ?k ?ps ! i"
      by (simp add: sorted_iff_nth_mono del: length_sort)
    with that(1,2) have "?k (?ps ! j) \<le> ?k (?ps ! i)" by simp
    moreover from that(3) have "?k (?ps ! i) = epoch"
      by (auto simp: unset_datetime_def datetime_or_def split: option.splits)
    ultimately show False using that(4) by simp
  qed
  then show ?thesis
    using sort_by_datetime_eq [OF assms, of epoch] s by (intro exI [of _ ?ps]) (simp add: sort_key_stable)
qed

theorem sort_by_datetime_unset_first_witness:
  "sort_by_datetime utc_epoch example_files =
     Inr (example_files\<lparr>paths := [''x'', ''z'', ''y'']\<rparr>,
          [(WARNING, ''No recorded date for x; inserting at beginning''),
           (WARNING, ''No recorded date for z; inserting at beginning'')])"
proof -
  have h: "\<forall>p\<in>set (paths example_files). meta example_files p \<noteq> None"
    by (simp add: example_files_def)
  have u: "filter (unset_datetime example_files) [''y'', ''x'', ''z''] = [''x'', ''z'']"
    by code_simp
  have ps: "paths example_files = [''y'', ''x'', ''z'']"
    by (simp add: example_files_def)
  have srt: "sort_key (datetime_or utc_epoch example_files) [''y'', ''x'', ''z''] = [''x'', ''z'', ''y'']"
    by code_simp
  from sort_by_datetime_unset_first [OF h, of utc_epoch] obtain qs where
    r: "sort_by_datetime utc_epoch example_files =
          Inr (example_files\<lparr>paths := qs\<rparr>,
               map no_date_warning (filter (unset_datetime example_files) (paths example_files)))"
    by blast
  have e: "sort_by_datetime utc_epoch example_files =
     Inr (example_files\<lparr>paths := [''x'', ''z'', ''y'']\<rparr>,
          [(WARNING, ''No recorded date for x; inserting at beginning''),
           (WARNING, ''No recorded date for z; inserting at beginning'')])"
    unfolding sort_by_datetime_eq [OF h] ps u srt
    by (simp add: no_date_warning_def)
  from r e show ?thesis by simp
qed

section \<open>Properties of the run and its monitoring loop\<close>

lemma monitor_iter_empty:
  assumes "test m = Some line" "startswith line ''frame=''"
  shows "monitor_iter [] m =
           m\<lparr>test := Some [], console := console m @ [render (prev_line m) line @ [CR]],
             prev_line := line, sleeps := sleeps m + 1\<rparr>"
proof -
  from assms(2) have "line \<noteq> []" by auto
  with assms show ?thesis by (simp add: monitor_iter_def truthy_str_def Let_def)
qed

lemma monitor_iter_nonempty: "r \<noteq> [] \<Longrightarrow> monitor_iter r m = m\<lparr>test := Some r\<rparr>"
  by (simp add: monitor_iter_def truthy_str_def Let_def)

text \<open>
  C5, as amended. In a pass of the monitoring loop made while the process has not
  exited, if the line read in the pass before begins with \<^verbatim>\<open>frame=\<close>, then that line is
  rendered in place and becomes the new baseline when the read of this pass returns
  nothing; when the read returns a newer line, nothing is rendered and the baseline
  stays as it was.
\<close>

theorem monitor_renders_only_when_caught_up:
  assumes "test m = Some line" "startswith line ''frame=''"
  shows "(r = [] \<longrightarrow> console (monitor_iter r m) = console m @ [render (prev_line m) line @ [CR]]
                     \<and> prev_line (monitor_iter r m) = line) \<and>
         (r \<noteq> [] \<longrightarrow> console (monitor_iter r m) = console m \<and> prev_line (monitor_iter r m) = prev_line m)"
  using monitor_iter_empty [OF assms] monitor_iter_nonempty [of r m] by auto

theorem monitor_renders_only_when_caught_up_witness:
  "console (monitor_iter [] (monitor_iter (''frame=1'' @ [LF]) monitor_start)) = [''frame=1'' @ [CR]] \<and>
   prev_line (monitor_iter [] (monitor_iter (''frame=1'' @ [LF]) monitor_start)) = ''frame=1'' @ [LF]"
proof -
  have m: "monitor_iter (''frame=1'' @ [LF]) monitor_start = monitor_start\<lparr>test := Some (''frame=1'' @ [LF])\<rparr>"
    by (simp add: monitor_iter_def truthy_str_def)
  have h1: "test (monitor_start\<lparr>test := Some (''frame=1'' @ [LF])\<rparr>) = Some (''frame=1'' @ [LF])" by simp
  have h2: "startswith (''frame=1'' @ [LF]) ''frame=''" by simp
  from monitor_renders_only_when_caught_up [OF h1 h2, of "[]"]
  show ?thesis unfolding m by (simp add: monitor_start_def render_def strip_def py_isspace_def)
qed

text \<open>
  Two lines that both begin with \<^verbatim>\<open>frame=\<close> are read in two passes that follow each
  other: in the second pass the line of the first is neither rendered nor made the
  baseline.
\<close>

theorem monitor_renders_only_when_caught_up_counterexample:
  "test (monitor_iter (''frame=1'' @ [LF]) monitor_start) = Some (''frame=1'' @ [LF]) \<and>
   startswith (''frame=1'' @ [LF]) ''frame='' \<and>
   console (monitor_iter (''frame=2'' @ [LF]) (monitor_iter (''frame=1'' @ [LF]) monitor_start)) = [] \<and>
   prev_line (monitor_iter (''frame=2'' @ [LF]) (monitor_iter (''frame=1'' @ [LF]) monitor_start)) = []"
  by (simp add: monitor_iter_def monitor_start_def truthy_str_def)





text \<open>
  C2, as amended. For every call of \<^verbatim>\<open>do_concatenation\<close> that gets past the opening of
  the log (the helper \<^verbatim>\<open>open_if_exists\<close> does not raise and, if a log path was given, the
  log can be opened for reading), with or without a log path: the record
  \<^verbatim>\<open>Processing done.\<close> is logged at level info if and only if the exit code of the
  process is zero, and a record of level error is logged if and only if it is not. The
  function returns no value and nothing it leaves behind holds the exit code: two
  exit codes other than zero give the same result.
\<close>

theorem do_concatenation_outcome:
  assumes "open_if_exists_yield env = Inr f"
    and "truthy_str logfile_path \<longrightarrow> open_read_raises env = None"
  shows "\<exists>out. do_concatenation exe input_files output preset logfile_path env w = Inr out \<and>
           ((INFO, ''Processing done.'') \<in> set (logged out) \<longleftrightarrow> returncode env = 0) \<and>
           ((\<exists>msg. (ERROR, msg) \<in> set (logged out)) \<longleftrightarrow> returncode env \<noteq> 0) \<and>
           (\<forall>c. c \<noteq> 0 \<and> returncode env \<noteq> 0 \<longrightarrow>
              do_concatenation exe input_files output preset logfile_path (env\<lparr>returncode := c\<rparr>) w = Inr out)"
  using assms
  by (cases "build_ffmpeg_params preset input_files (mkstemp_path env) w")
     (auto simp: do_concatenation_def Let_def)

theorem do_concatenation_outcome_witness:
  "\<exists>out. do_concatenation ''ffmpeg'' [''a.dv'', ''b.dv''] ''out.mkv'' preset_copydv (Some ''log.txt'')
            (logging_env\<lparr>returncode := 1\<rparr>) empty_world = Inr out \<and>
          (INFO, ''Processing done.'') \<notin> set (logged out) \<and>
          (\<exists>msg. (ERROR, msg) \<in> set (logged out))"
proof -
  have h1: "open_if_exists_yield (logging_env\<lparr>returncode := 1\<rparr>) = Inr (Some ''log.txt'')"
    by (simp add: logging_env_def)
  have h2: "truthy_str (Some ''log.txt'') \<longrightarrow> open_read_raises (logging_env\<lparr>returncode := 1\<rparr>) = None"
    by (simp add: logging_env_def)
  have rc: "returncode (logging_env\<lparr>returncode := 1\<rparr>) \<noteq> 0" by simp
  from do_concatenation_outcome [OF h1 h2, of "''ffmpeg''" "[''a.dv'', ''b.dv'']" "''out.mkv''" preset_copydv empty_world]
  obtain out where
    "do_concatenation ''ffmpeg'' [''a.dv'', ''b.dv''] ''out.mkv'' preset_copydv (Some ''log.txt'')
       (logging_env\<lparr>returncode := 1\<rparr>) empty_world = Inr out"
    "(INFO, ''Processing done.'') \<in> set (logged out) \<longleftrightarrow> returncode (logging_env\<lparr>returncode := 1\<rparr>) = 0"
    "(\<exists>msg. (ERROR, msg) \<in> set (logged out)) \<longleftrightarrow> returncode (logging_env\<lparr>returncode := 1\<rparr>) \<noteq> 0"
    by blast
  with rc show ?thesis by (intro exI [of _ out]) simp
qed

text \<open>
  Exit code 1 and exit code 2 leave the same result behind, without a log path and with
  one: the result does not hold the exit code.
\<close>

theorem do_concatenation_outcome_counterexample:
  "do_concatenation ''ffmpeg'' [''a.dv'', ''b.dv''] ''out.mkv'' preset_copydv None (example_env\<lparr>returncode := 1\<rparr>) empty_world
     = do_concatenation ''ffmpeg'' [''a.dv'', ''b.dv''] ''out.mkv'' preset_copydv None (example_env\<lparr>returncode := 2\<rparr>) empty_world \<and>
   do_concatenation ''ffmpeg'' [''a.dv'', ''b.dv''] ''out.mkv'' preset_copydv (Some ''log.txt'') (logging_env\<lparr>returncode := 1\<rparr>) empty_world
     = do_concatenation ''ffmpeg'' [''a.dv'', ''b.dv''] ''out.mkv'' preset_copydv (Some ''log.txt'') (logging_env\<lparr>returncode := 2\<rparr>) empty_world"
  by (simp add: do_concatenation_def example_env_def logging_env_def Let_def truthy_str_def split: prod.splits)

text \<open>
  C10, as amended. For every call of \<^verbatim>\<open>do_concatenation\<close> in which the helper
  \<^verbatim>\<open>open_if_exists\<close> yields no handle, the output of the process is discarded (it goes to
  the null sink), and the run proceeds to its end and reports its outcome as usual,
  provided that no log path was given or that the log can be opened for reading.
\<close>

theorem do_concatenation_without_handle:
  assumes "open_if_exists_yield env = Inr None"
    and "truthy_str logfile_path \<longrightarrow> open_read_raises env = None"
  shows "\<exists>out. do_concatenation exe input_files output preset logfile_path env w = Inr out \<and>
           popen_output out = DEVNULL \<and>
           ((INFO, ''Processing done.'') \<in> set (logged out) \<longleftrightarrow> returncode env = 0) \<and>
           ((\<exists>msg. (ERROR, msg) \<in> set (logged out)) \<longleftrightarrow> returncode env \<noteq> 0)"
  using assms
  by (cases "build_ffmpeg_params preset input_files (mkstemp_path env) w")
     (auto simp: do_concatenation_def Let_def)

theorem do_concatenation_without_handle_witness:
  "\<exists>out. do_concatenation ''ffmpeg'' [''a.dv'', ''b.dv''] ''out.mkv'' preset_copydv None
            example_env empty_world = Inr out \<and>
          popen_output out = DEVNULL \<and>
          (INFO, ''Processing done.'') \<in> set (logged out)"
proof -
  have h1: "open_if_exists_yield example_env = Inr None"
    by (simp add: example_env_def)
  have h2: "truthy_str None \<longrightarrow> open_read_raises example_env = None"
    by (simp add: truthy_str_def)
  have rc: "returncode example_env = 0" by (simp add: example_env_def)
  from do_concatenation_without_handle [OF h1 h2, of "''ffmpeg''" "[''a.dv'', ''b.dv'']" "''out.mkv''" preset_copydv empty_world]
  obtain out where
    "do_concatenation ''ffmpeg'' [''a.dv'', ''b.dv''] ''out.mkv'' preset_copydv None example_env empty_world = Inr out"
    "popen_output out = DEVNULL"
    "(INFO, ''Processing done.'') \<in> set (logged out) \<longleftrightarrow> returncode example_env = 0"
    by blast
  with rc show ?thesis by (intro exI [of _ out]) simp
qed

text \<open>
  A log path whose file can be opened neither for writing nor for reading: the process
  is started with its output discarded and then \<^verbatim>\<open>open(logfile_path, "r")\<close> raises, so the
  call ends with that exception and reports no outcome; it also ends with an exception
  when the helper \<^verbatim>\<open>open_if_exists\<close> raises itself.
\<close>

theorem do_concatenation_without_handle_counterexample:
  "do_concatenation ''ffmpeg'' [''a.dv'', ''b.dv''] ''out.mkv'' preset_copydv (Some ''/nodir/log.txt'')
     (example_env\<lparr>open_if_exists_yield := Inr None, open_read_raises := Some OSError\<rparr>) empty_world = Inl OSError \<and>
   do_concatenation ''ffmpeg'' [''a.dv'', ''b.dv''] ''out.mkv'' preset_copydv (Some ''/nodir/log.txt'')
     (example_env\<lparr>open_if_exists_yield := Inl OSError, open_read_raises := Some OSError\<rparr>) empty_world = Inl OSError"
  by (simp add: do_concatenation_def example_env_def Let_def truthy_str_def split: prod.splits)

end
